theory Spec2Isabelle
  imports Complex_Main
begin

section \<open>The profiling notebook: Monte Carlo estimation of pi\<close>

text \<open>
  The notebook \<^verbatim>\<open>pi.ipynb\<close> defines \<^verbatim>\<open>estimate_pi\<close>, its remote twin
  \<^verbatim>\<open>distrib_estimate_pi\<close>, \<^verbatim>\<open>run_epoch\<close> and the class \<^verbatim>\<open>Sim\<close>.
  Python floats are read as real numbers here: the rounding of each floating-point
  operation is left out, the order of the operations and every raise are kept.
  The exceptions the code can raise are values of the type \<open>error\<close>.
\<close>

datatype error = ValueError | ZeroDivisionError | StatisticsError | TypeError | ObjectLostError

text \<open>
  What the functions read from outside is explicit state. \<open>rng\<close> is the sequence of
  values in \<open>[0, 1)\<close> that the random generator of the executing process hands out
  next, \<open>clock\<close> the readings that successive calls of \<^verbatim>\<open>time.time()\<close> return,
  \<open>objects\<close> the object store of the runtime: the outcome of every task submitted so
  far, in the order of submission; an object reference is the position of its outcome.
  A remote task runs in a worker process, which has a generator of its own:
  \<open>workers w r\<close> is the sequence that the worker running the task with reference \<open>r\<close>
  draws from.
\<close>

type_synonym 'v object_store = "(error + 'v) list"

type_synonym object_ref = nat

record world =
  rng :: "nat \<Rightarrow> real"
  clock :: "nat \<Rightarrow> real"
  objects :: "real object_store"
  workers :: "object_ref \<Rightarrow> nat \<Rightarrow> real"

text \<open>
  \<^verbatim>\<open>np.random.uniform(low, high, size)\<close>: \<open>size\<close> (here \<open>sz\<close>) samples, each \<open>low + (high - low) * u\<close>
  for the next \<open>u\<close> of the generator; a negative size raises \<^verbatim>\<open>ValueError\<close>.
\<close>

definition uniform :: "real \<Rightarrow> real \<Rightarrow> int \<Rightarrow> world \<Rightarrow> (error + real list) \<times> world" where
  "uniform low high sz w =
     (if sz < 0 then (Inl ValueError, w)
      else (Inr (map (\<lambda>i. low + (high - low) * rng w i) [0..<nat sz]),
            w\<lparr>rng := (\<lambda>i. rng w (i + nat sz))\<rparr>))"

text \<open>\<^verbatim>\<open>time.time()\<close>: the next reading of the clock.\<close>

definition time_time :: "world \<Rightarrow> real \<times> world" where
  "time_time w = (clock w 0, w\<lparr>clock := (\<lambda>i. clock w (Suc i))\<rparr>)"

text \<open>
  \<^verbatim>\<open>xys[inside]\<close>: indexing an array with a boolean mask of the same length keeps the
  entries whose mask is true, in order.
\<close>

definition mask_select :: "'a list \<Rightarrow> bool list \<Rightarrow> 'a list" where
  "mask_select xs keep = map fst (filter snd (zip xs keep))"

text \<open>
  \<^verbatim>\<open>
  def estimate_pi (num_samples):
      xs = np.random.uniform(low=-1.0, high=1.0, size=num_samples)
      ys = np.random.uniform(low=-1.0, high=1.0, size=num_samples)
      xys = np.stack((xs, ys), axis=-1)
      inside = (xs**2.0 + ys**2.0) <= 1.0
      xys_inside = xys[inside]
      in_circle = xys_inside.shape[0]
      approx_pi = 4.0 * in_circle / num_samples
      return approx_pi
  \<close>
  \<open>4.0 * in_circle\<close> is a Python float and \<open>num_samples\<close> a Python int, so the
  division raises \<^verbatim>\<open>ZeroDivisionError\<close> when \<open>num_samples\<close> is 0.
\<close>

definition estimate_pi :: "int \<Rightarrow> world \<Rightarrow> (error + real) \<times> world" where
  "estimate_pi num_samples w =
     (case uniform (-1) 1 num_samples w of
        (Inl e, w1) \<Rightarrow> (Inl e, w1)
      | (Inr xs, w1) \<Rightarrow>
          (case uniform (-1) 1 num_samples w1 of
             (Inl e, w2) \<Rightarrow> (Inl e, w2)
           | (Inr ys, w2) \<Rightarrow>
               (let xys = zip xs ys;
                    inside = map2 (\<lambda>x y. x\<^sup>2 + y\<^sup>2 \<le> 1) xs ys;
                    xys_inside = mask_select xys inside;
                    in_circle = length xys_inside
                in if num_samples = 0 then (Inl ZeroDivisionError, w2)
                   else (Inr (4 * real in_circle / real_of_int num_samples), w2))))"

text \<open>
  Python's \<^verbatim>\<open>statistics.mean\<close> and \<^verbatim>\<open>statistics.stdev\<close>, as the standard library
  documents them: the arithmetic mean, which raises \<^verbatim>\<open>StatisticsError\<close> on no data, and the
  square root of the sample variance (divisor \<open>n - 1\<close>), which raises
  \<^verbatim>\<open>StatisticsError\<close> on fewer than two data points.
\<close>

definition mean :: "real list \<Rightarrow> error + real" where
  "mean data =
     (if data = [] then Inl StatisticsError
      else Inr (sum_list data / real (length data)))"

definition variance :: "real list \<Rightarrow> error + real" where
  "variance data =
     (if length data < 2 then Inl StatisticsError
      else (let c = sum_list data / real (length data)
            in Inr (sum_list (map (\<lambda>x. (x - c)\<^sup>2) data) / real (length data - 1))))"

definition stdev :: "real list \<Rightarrow> error + real" where
  "stdev data = (case variance data of Inl e \<Rightarrow> Inl e | Inr v \<Rightarrow> Inr (sqrt v))"

text \<open>\<^verbatim>\<open>np.pi\<close> is a double: the one nearest to \<open>\<pi>\<close>, which is this fraction.\<close>

definition np_pi :: real where
  "np_pi = 884279719003555 / 281474976710656"

subsection \<open>The object store and remote invocation\<close>

text \<open>
  Modelled from the spec: the runtime's \<^verbatim>\<open>ray.put\<close>, \<^verbatim>\<open>ray.get\<close> and the
  \<^verbatim>\<open>.remote\<close> invocation of a function annotated with \<^verbatim>\<open>@ray.remote\<close> are not part
  of the sources, which only call them. The glossary describes a remote object as a value
  placed into a shared store and referenced by a handle, and a remote function as a plain
  function whose invocation is dispatched to a worker and returns a future immediately.
  \<open>new_object\<close> places an outcome (a value, or the error its task raised) into the store
  and returns its handle; \<open>ray_get\<close> resolves a handle, raising the error of a failed
  task; \<open>ray_get_list\<close> is \<^verbatim>\<open>ray.get\<close> on a list of handles, which resolves them in
  order and raises the first error. A handle the store has no object for is a lost
  object.
\<close>

definition new_object :: "error + 'v \<Rightarrow> 'v object_store \<Rightarrow> object_ref \<times> 'v object_store" where
  "new_object outcome store = (length store, store @ [outcome])"

definition ray_put :: "'v \<Rightarrow> 'v object_store \<Rightarrow> object_ref \<times> 'v object_store" where
  "ray_put v store = new_object (Inr v) store"

definition ray_get :: "object_ref \<Rightarrow> 'v object_store \<Rightarrow> error + 'v" where
  "ray_get ref store = (if ref < length store then store ! ref else Inl ObjectLostError)"

fun ray_get_list :: "object_ref list \<Rightarrow> 'v object_store \<Rightarrow> error + 'v list" where
  "ray_get_list [] store = Inr []"
| "ray_get_list (ref # refs) store =
     (case ray_get ref store of
        Inl e \<Rightarrow> Inl e
      | Inr v \<Rightarrow> (case ray_get_list refs store of Inl e \<Rightarrow> Inl e | Inr vs \<Rightarrow> Inr (v # vs)))"

subsection \<open>The remote sampling function and one epoch\<close>

text \<open>
  \<^verbatim>\<open>
  @ray.remote
  def distrib_estimate_pi (num_samples):
      return estimate_pi(num_samples)
  \<close>
  \<open>distrib_estimate_pi\<close> is the body; \<open>distrib_estimate_pi_remote\<close> is the invocation
  \<^verbatim>\<open>distrib_estimate_pi.remote(num_samples)\<close>: the task runs the body in its worker,
  that is, on the worker's generator; its outcome goes into the object store under the
  next reference, which is returned. The state of the caller changes in the store only.
\<close>

definition distrib_estimate_pi :: "int \<Rightarrow> world \<Rightarrow> (error + real) \<times> world" where
  "distrib_estimate_pi num_samples w = estimate_pi num_samples w"

definition distrib_estimate_pi_remote :: "int \<Rightarrow> world \<Rightarrow> object_ref \<times> world" where
  "distrib_estimate_pi_remote num_samples w =
     (case distrib_estimate_pi num_samples (w\<lparr>rng := workers w (length (objects w))\<rparr>) of
        (outcome, worker) \<Rightarrow>
          (case new_object outcome (objects w) of
             (ref, store) \<Rightarrow> (ref, w\<lparr>objects := store\<rparr>)))"

text \<open>
  The two list comprehensions of \<^verbatim>\<open>run_epoch\<close>, over \<^verbatim>\<open>range(num_trials)\<close>:
  \<^verbatim>\<open>[estimate_pi(num_samples) for _ in range(num_trials)]\<close>, which stops at the first
  call that raises, and
  \<^verbatim>\<open>[distrib_estimate_pi.remote(num_samples) for _ in range(num_trials)]\<close>, which
  only submits.
\<close>

fun serial_trials :: "nat \<Rightarrow> int \<Rightarrow> world \<Rightarrow> (error + real list) \<times> world" where
  "serial_trials 0 num_samples w = (Inr [], w)"
| "serial_trials (Suc k) num_samples w =
     (case estimate_pi num_samples w of
        (Inl e, w1) \<Rightarrow> (Inl e, w1)
      | (Inr p, w1) \<Rightarrow>
          (case serial_trials k num_samples w1 of
             (Inl e, w2) \<Rightarrow> (Inl e, w2)
           | (Inr ps, w2) \<Rightarrow> (Inr (p # ps), w2)))"

fun remote_trials :: "nat \<Rightarrow> int \<Rightarrow> world \<Rightarrow> object_ref list \<times> world" where
  "remote_trials 0 num_samples w = ([], w)"
| "remote_trials (Suc k) num_samples w =
     (case distrib_estimate_pi_remote num_samples w of
        (ref, w1) \<Rightarrow>
          (case remote_trials k num_samples w1 of
             (refs, w2) \<Rightarrow> (ref # refs, w2)))"

text \<open>
  \<^verbatim>\<open>
  def run_epoch (num_samples, num_trials, distrib=False):
      start = time.time()
      if distrib:
          refs = [distrib_estimate_pi.remote(num_samples) for _ in range(num_trials)]
          pis = ray.get(refs)
      else:
          pis = [estimate_pi(num_samples) for _ in range(num_trials)]
      duration = time.time() - start
      approx_pi = statistics.mean(pis)
      stdev = statistics.stdev(pis)
      error = 100.0 * abs(approx_pi - np.pi) / np.pi
      return num_samples, duration, approx_pi, stdev, error
  \<close>
  \<^verbatim>\<open>range(num_trials)\<close> is empty for a negative \<open>num_trials\<close>, as \<open>nat\<close> is.
\<close>

type_synonym epoch = "int \<times> real \<times> real \<times> real \<times> real"

definition run_epoch :: "int \<Rightarrow> int \<Rightarrow> bool \<Rightarrow> world \<Rightarrow> (error + epoch) \<times> world" where
  "run_epoch num_samples num_trials distrib w =
     (case time_time w of
        (start, w1) \<Rightarrow>
          (case (if distrib
                 then (case remote_trials (nat num_trials) num_samples w1 of
                         (refs, w2) \<Rightarrow> (ray_get_list refs (objects w2), w2))
                 else serial_trials (nat num_trials) num_samples w1) of
             (Inl e, w2) \<Rightarrow> (Inl e, w2)
           | (Inr pis, w2) \<Rightarrow>
               (case time_time w2 of
                  (now, w3) \<Rightarrow>
                    (let duration = now - start
                     in case mean pis of
                          Inl e \<Rightarrow> (Inl e, w3)
                        | Inr approx_pi \<Rightarrow>
                            (case stdev pis of
                               Inl e \<Rightarrow> (Inl e, w3)
                             | Inr sd \<Rightarrow>
                                 (let err = 100 * \<bar>approx_pi - np_pi\<bar> / np_pi
                                  in (Inr (num_samples, duration, approx_pi, sd, err), w3)))))))"

subsection \<open>The class Sim\<close>

text \<open>
  \<^verbatim>\<open>range(start, stop, step)\<close>: a zero step raises \<^verbatim>\<open>ValueError\<close>; a positive step
  counts up while below \<open>stop\<close>, a negative step counts down while above it.
\<close>

definition py_range :: "int \<Rightarrow> int \<Rightarrow> int \<Rightarrow> error + int list" where
  "py_range start stop step =
     (if step = 0 then Inl ValueError
      else if 0 < step
        then Inr (map (\<lambda>i. start + int i * step) [0..<nat ((stop - start + step - 1) div step)])
        else Inr (map (\<lambda>i. start + int i * step) [0..<nat ((start - stop - step - 1) div (- step))]))"

text \<open>
  A \<^verbatim>\<open>pandas.DataFrame\<close> built from a list of tuples and the column names: the names
  and the rows, in order.
\<close>

record data_frame =
  columns :: "string list"
  rows :: "epoch list"

definition DF_COL_NAMES :: "string list" where
  "DF_COL_NAMES = [''n'', ''duration'', ''approx_pi'', ''stdev'', ''error'']"

definition NUM_SAMPLES :: int where
  "NUM_SAMPLES = 1000000"

definition NUM_TRIALS :: int where
  "NUM_TRIALS = 20"

definition STEP_SIZE :: int where
  "STEP_SIZE = NUM_SAMPLES div 25"

text \<open>
  \<^verbatim>\<open>
  class Sim:
      def __init__ (self, distrib=False, num_samples=NUM_SAMPLES, num_trials=NUM_TRIALS, step_size=STEP_SIZE):
          self.distrib = distrib
          self.num_samples = num_samples
          self.num_trials = num_trials
          self.step_size = step_size
          self.df = None

      def run (self):
          # use a minimum of 2 trials, to be able to calculate standard deviation
          results = [
              run_epoch(n_samp, self.num_trials, distrib=self.distrib)
              for n_samp in range(2, self.num_samples, self.step_size)
          ]
          self.df = pd.DataFrame(results, columns=self.DF_COL_NAMES)
          return self
  \<close>
\<close>

record Sim =
  distrib :: bool
  num_samples :: int
  num_trials :: int
  step_size :: int
  df :: "data_frame option"

definition Sim_init :: "bool \<Rightarrow> int \<Rightarrow> int \<Rightarrow> int \<Rightarrow> Sim" where
  "Sim_init d ns nt ss =
     \<lparr>distrib = d, num_samples = ns, num_trials = nt, step_size = ss, df = None\<rparr>"

text \<open>The comprehension of \<^verbatim>\<open>run\<close>: one epoch per element, stopping at the first raise.\<close>

fun run_epochs :: "int list \<Rightarrow> int \<Rightarrow> bool \<Rightarrow> world \<Rightarrow> (error + epoch list) \<times> world" where
  "run_epochs [] nt d w = (Inr [], w)"
| "run_epochs (n_samp # ns) nt d w =
     (case run_epoch n_samp nt d w of
        (Inl e, w1) \<Rightarrow> (Inl e, w1)
      | (Inr r, w1) \<Rightarrow>
          (case run_epochs ns nt d w1 of
             (Inl e, w2) \<Rightarrow> (Inl e, w2)
           | (Inr rs, w2) \<Rightarrow> (Inr (r # rs), w2)))"

definition run :: "Sim \<Rightarrow> world \<Rightarrow> (error + Sim) \<times> world" where
  "run self w =
     (case py_range 2 (num_samples self) (step_size self) of
        Inl e \<Rightarrow> (Inl e, w)
      | Inr ns \<Rightarrow>
          (case run_epochs ns (num_trials self) (distrib self) w of
             (Inl e, w1) \<Rightarrow> (Inl e, w1)
           | (Inr results, w1) \<Rightarrow>
               (Inr (self\<lparr>df := Some \<lparr>columns = DF_COL_NAMES, rows = results\<rparr>\<rparr>), w1)))"

subsection \<open>Auxiliary functions for the statements\<close>

text \<open>
  \<open>first_error\<close> reads a list of outcomes in order: the first error, or all the values.
  \<open>task_world w i\<close> is the state in which the \<open>i\<close>-th of the tasks submitted from \<open>w\<close>
  runs: its generator is the worker's. \<open>trial_estimates\<close> is the list \<^verbatim>\<open>pis\<close> of
  \<^verbatim>\<open>run_epoch\<close>, or the error raised while it is computed, in either mode.
  \<open>epoch_of\<close> is the tail of \<^verbatim>\<open>run_epoch\<close> after the trials, from \<^verbatim>\<open>statistics.mean\<close>
  on, as a function of \<^verbatim>\<open>pis\<close>; \<open>epoch_stats\<close> drops the measured duration from an
  epoch.
\<close>

fun first_error :: "(error + 'a) list \<Rightarrow> error + 'a list" where
  "first_error [] = Inr []"
| "first_error (Inl e # outcomes) = Inl e"
| "first_error (Inr v # outcomes) =
     (case first_error outcomes of Inl e \<Rightarrow> Inl e | Inr vs \<Rightarrow> Inr (v # vs))"

definition task_world :: "world \<Rightarrow> nat \<Rightarrow> world" where
  "task_world w i = w\<lparr>rng := workers w (length (objects w) + i)\<rparr>"

definition trial_estimates :: "int \<Rightarrow> int \<Rightarrow> bool \<Rightarrow> world \<Rightarrow> error + real list" where
  "trial_estimates n t d w =
     (if d then first_error (map (\<lambda>i. fst (distrib_estimate_pi n (task_world w i))) [0..<nat t])
      else fst (serial_trials (nat t) n w))"

definition epoch_stats :: "epoch \<Rightarrow> int \<times> real \<times> real \<times> real" where
  "epoch_stats r = (case r of (n, duration, approx_pi, sd, err) \<Rightarrow> (n, approx_pi, sd, err))"

definition epoch_of :: "int \<Rightarrow> real \<Rightarrow> real list \<Rightarrow> error + epoch" where
  "epoch_of n duration pis =
     (case mean pis of
        Inl e \<Rightarrow> Inl e
      | Inr approx_pi \<Rightarrow>
          (case stdev pis of
             Inl e \<Rightarrow> Inl e
           | Inr sd \<Rightarrow> Inr (n, duration, approx_pi, sd, 100 * \<bar>approx_pi - np_pi\<bar> / np_pi)))"

text \<open>
  \<open>column_n\<close> reads the column \<^verbatim>\<open>n\<close> of the table a \<^verbatim>\<open>Sim\<close> holds (no table, no
  entries). \<open>world0\<close> is a concrete state on which the functions are run below: every
  generator alternates between \<open>1/2\<close> and \<open>1\<close>, so the samples alternate between \<open>0\<close>
  and \<open>1\<close>; the clock counts seconds; the object store is empty.
\<close>

definition column_n :: "Sim \<Rightarrow> int list" where
  "column_n self = (case df self of None \<Rightarrow> [] | Some table \<Rightarrow> map fst (rows table))"

definition alternating :: "nat \<Rightarrow> real" where
  "alternating i = (if even i then 1 / 2 else 1)"

definition world0 :: world where
  "world0 = \<lparr>rng = alternating, clock = real, objects = [], workers = (\<lambda>r. alternating)\<rparr>"

section \<open>The guided tour: remote objects, remote functions, remote classes\<close>

subsection \<open>Remote objects and remote functions\<close>

text \<open>
  The values the two notebooks place in the store: integers and lists of integers.
\<close>

datatype pyval = PyInt int | PyList "int list"

text \<open>
  Modelled from the spec: the invocation \<^verbatim>\<open>f.remote(args)\<close> of a remote function is
  runtime code that the sources only call. After the glossary (a plain function whose
  invocation is dispatched to a worker, returning a future immediately) and the prose of
  the remote-objects notebook (a handle passed to a dependent task is resolved to its
  value, which is copied into the task): an argument is a plain value or a handle;
  \<open>resolve_args\<close> replaces every handle by the value the store holds for it (the task
  fails with the error of a failed or lost argument); \<open>remote\<close> runs the body on the
  resolved arguments, places the outcome in the store and returns its handle, the
  future. The body is a function from the argument list to a value or a raised error.
\<close>

datatype 'v arg = Val 'v | Ref object_ref

fun resolve_args :: "'v arg list \<Rightarrow> 'v object_store \<Rightarrow> error + 'v list" where
  "resolve_args [] store = Inr []"
| "resolve_args (Val v # as) store =
     (case resolve_args as store of Inl e \<Rightarrow> Inl e | Inr vs \<Rightarrow> Inr (v # vs))"
| "resolve_args (Ref r # as) store =
     (case ray_get r store of
        Inl e \<Rightarrow> Inl e
      | Inr v \<Rightarrow> (case resolve_args as store of Inl e \<Rightarrow> Inl e | Inr vs \<Rightarrow> Inr (v # vs)))"

definition remote :: "('v list \<Rightarrow> error + 'v) \<Rightarrow> 'v arg list \<Rightarrow> 'v object_store \<Rightarrow> object_ref \<times> 'v object_store" where
  "remote body args store =
     new_object (case resolve_args args store of Inl e \<Rightarrow> Inl e | Inr vs \<Rightarrow> body vs) store"

text \<open>
  The comprehension \<^verbatim>\<open>[ray.put(i) for i in range(3)]\<close> of the remote-objects notebook,
  for any list of values: each value is put in turn, and the handles are collected in order.
\<close>

fun put_each :: "'v list \<Rightarrow> 'v object_store \<Rightarrow> object_ref list \<times> 'v object_store" where
  "put_each [] store = ([], store)"
| "put_each (v # vs) store =
     (case ray_put v store of
        (ref, store1) \<Rightarrow> (case put_each vs store1 of (refs, store2) \<Rightarrow> (ref # refs, store2)))"

text \<open>
  The remote-functions notebook:
  \<^verbatim>\<open>
  @ray.remote
  def my_function ():
      return 42
  \<close>
  A call with an argument raises \<^verbatim>\<open>TypeError\<close>.
\<close>

fun my_function :: "pyval list \<Rightarrow> error + pyval" where
  "my_function [] = Inr (PyInt 42)"
| "my_function (v # vs) = Inl TypeError"

text \<open>
  The remote-objects notebook (its function has the same name; the suffix tells them apart):
  \<^verbatim>\<open>
  num_list = [ 23, 42, 93 ]
  obj_ref = ray.put(num_list)

  @ray.remote
  def my_function (num_list):
      return sum(num_list)

  calc_ref = my_function.remote(obj_ref)
  ray.get(calc_ref)
  \<close>
  \<^verbatim>\<open>sum\<close> of a list of integers is their sum; of an integer it raises \<^verbatim>\<open>TypeError\<close>.
\<close>

definition py_sum :: "pyval \<Rightarrow> error + pyval" where
  "py_sum v = (case v of PyList xs \<Rightarrow> Inr (PyInt (sum_list xs)) | PyInt i \<Rightarrow> Inl TypeError)"

fun my_function_sum :: "pyval list \<Rightarrow> error + pyval" where
  "my_function_sum [num_list] = py_sum num_list"
| "my_function_sum vs = Inl TypeError"

definition num_list :: pyval where
  "num_list = PyList [23, 42, 93]"

subsection \<open>Remote classes: the actor Counter\<close>

text \<open>
  \<^verbatim>\<open>
  @ray.remote
  class Counter:
      def __init__ (self):
          self.value = 0

      def increment (self):
          self.value += 1
          return self.value
  \<close>
  The field \<^verbatim>\<open>value\<close> is \<open>counter_value\<close> here (\<^verbatim>\<open>value\<close> is a reserved word of
  Isabelle). A method call returns
  its result and the updated object. An actor runs the calls it receives one at a time, in
  the order they were submitted: \<open>increments k\<close> is a sequence of \<open>k\<close> calls of
  \<^verbatim>\<open>increment\<close>, as \<^verbatim>\<open>[counter.increment.remote() for _ in range(3)]\<close> submits three, and
  gives the list of their results.
\<close>

record Counter =
  counter_value :: int

definition Counter_init :: Counter where
  "Counter_init = \<lparr>counter_value = 0\<rparr>"

definition increment :: "Counter \<Rightarrow> int \<times> Counter" where
  "increment self =
     (let self1 = self\<lparr>counter_value := counter_value self + 1\<rparr>
      in (counter_value self1, self1))"

fun increments :: "nat \<Rightarrow> Counter \<Rightarrow> int list \<times> Counter" where
  "increments 0 actor = ([], actor)"
| "increments (Suc k) actor =
     (case increment actor of
        (r, actor1) \<Rightarrow> (case increments k actor1 of (rs, actor2) \<Rightarrow> (r # rs, actor2)))"

section \<open>Properties of the sampling function\<close>

lemma uniform_nonneg:
  "0 \<le> n \<Longrightarrow> uniform lo hi n w =
     (Inr (map (\<lambda>i. lo + (hi - lo) * rng w i) [0..<nat n]), w\<lparr>rng := (\<lambda>i. rng w (i + nat n))\<rparr>)"
  by (simp add: uniform_def)

lemma uniform_negative: "n < 0 \<Longrightarrow> uniform lo hi n w = (Inl ValueError, w)"
  by (simp add: uniform_def)


lemma estimate_pi_zero: "fst (estimate_pi 0 w) = Inl ZeroDivisionError"
  by (simp add: estimate_pi_def uniform_def)

lemma estimate_pi_negative: "n < 0 \<Longrightarrow> fst (estimate_pi n w) = Inl ValueError"
  by (simp add: estimate_pi_def uniform_negative)

lemma estimate_pi_positive: "1 \<le> n \<Longrightarrow> \<exists>v. fst (estimate_pi n w) = Inr v"
  by (simp add: estimate_pi_def uniform_nonneg Let_def)

lemma estimate_pi_nonpositive:
  "n \<le> 0 \<Longrightarrow> fst (estimate_pi n w) = Inl (if n < 0 then ValueError else ZeroDivisionError)"
  by (cases "n < 0") (simp_all add: estimate_pi_negative estimate_pi_zero)



text \<open>The sampling function reads and advances the generator and nothing else.\<close>

lemma estimate_pi_clock: "clock (snd (estimate_pi n w)) = clock w"
  by (simp add: estimate_pi_def uniform_def Let_def)

lemma estimate_pi_objects: "objects (snd (estimate_pi n w)) = objects w"
  by (simp add: estimate_pi_def uniform_def Let_def)

lemma estimate_pi_workers: "workers (snd (estimate_pi n w)) = workers w"
  by (simp add: estimate_pi_def uniform_def Let_def)

lemma estimate_pi_rng_cong:
  assumes "rng w = rng v"
  shows "fst (estimate_pi n w) = fst (estimate_pi n v)"
    and "rng (snd (estimate_pi n w)) = rng (snd (estimate_pi n v))"
  using assms by (simp_all add: estimate_pi_def uniform_def Let_def)

section \<open>Properties of the trials of an epoch\<close>

lemma serial_trials_clock: "clock (snd (serial_trials k n w)) = clock w"
proof (induction k arbitrary: w)
  case 0
  show ?case by simp
next
  case (Suc k)
  obtain r w1 where e: "estimate_pi n w = (r, w1)" by (cases "estimate_pi n w")
  then have c1: "clock w1 = clock w" using estimate_pi_clock [of n w] by simp
  show ?case
  proof (cases r)
    case (Inl err)
    then show ?thesis using e c1 by simp
  next
    case (Inr p)
    obtain rs w2 where s: "serial_trials k n w1 = (rs, w2)" by (cases "serial_trials k n w1")
    then have "clock w2 = clock w1" using Suc.IH [of w1] by simp
    then show ?thesis using e c1 s Inr by (cases rs) simp_all
  qed
qed

lemma serial_trials_rng_cong:
  "rng w = rng v \<Longrightarrow> fst (serial_trials k n w) = fst (serial_trials k n v)"
proof (induction k arbitrary: w v)
  case 0
  show ?case by simp
next
  case (Suc k)
  obtain r w1 where ew: "estimate_pi n w = (r, w1)" by (cases "estimate_pi n w")
  obtain r' v1 where ev: "estimate_pi n v = (r', v1)" by (cases "estimate_pi n v")
  have r: "r' = r" and g: "rng w1 = rng v1"
    using estimate_pi_rng_cong [OF Suc.prems, of n] ew ev by simp_all
  show ?case
  proof (cases r)
    case (Inl err)
    then show ?thesis using ew ev r by simp
  next
    case (Inr p)
    have "fst (serial_trials k n w1) = fst (serial_trials k n v1)"
      using Suc.IH [OF g] .
    then show ?thesis using ew ev r Inr
      by (cases "serial_trials k n w1"; cases "serial_trials k n v1") (simp split: sum.splits)
  qed
qed

lemma serial_trials_length:
  "fst (serial_trials k n w) = Inr pis \<Longrightarrow> length pis = k"
proof (induction k arbitrary: w pis)
  case 0
  then show ?case by simp
next
  case (Suc k)
  from Suc.prems obtain p w1 ps w2 where
    "estimate_pi n w = (Inr p, w1)" and s: "serial_trials k n w1 = (Inr ps, w2)" and "pis = p # ps"
    by (auto split: prod.splits sum.splits)
  then show ?case using Suc.IH [of w1 ps] by simp
qed

lemma serial_trials_ok:
  "1 \<le> n \<Longrightarrow> \<exists>pis. fst (serial_trials k n w) = Inr pis"
proof (induction k arbitrary: w)
  case 0
  show ?case by simp
next
  case (Suc k)
  obtain v where "fst (estimate_pi n w) = Inr v"
    using estimate_pi_positive [OF Suc.prems] by blast
  then obtain w1 where e: "estimate_pi n w = (Inr v, w1)"
    by (cases "estimate_pi n w") simp
  obtain pis where "fst (serial_trials k n w1) = Inr pis"
    using Suc.IH [OF Suc.prems] by blast
  then obtain w2 where "serial_trials k n w1 = (Inr pis, w2)"
    by (cases "serial_trials k n w1") simp
  then show ?case using e by simp
qed

lemma serial_trials_fail:
  assumes "n \<le> 0"
  shows "fst (serial_trials (Suc k) n w) = Inl (if n < 0 then ValueError else ZeroDivisionError)"
  using estimate_pi_nonpositive [OF assms, of w] by (cases "estimate_pi n w") simp

text \<open>
  A remote invocation returns the next reference and appends the outcome of the task,
  run on the worker's generator, to the store; nothing else changes.
\<close>

lemma remote_invocation:
  "distrib_estimate_pi_remote n w =
     (length (objects w),
      w\<lparr>objects := objects w @ [fst (distrib_estimate_pi n (task_world w 0))]\<rparr>)"
  by (simp add: distrib_estimate_pi_remote_def new_object_def task_world_def split_beta)

lemma task_world_objects_cong:
  "fst (distrib_estimate_pi n (task_world (w\<lparr>objects := store\<rparr>) i))
     = fst (distrib_estimate_pi n (w\<lparr>rng := workers w (length store + i)\<rparr>))"
  unfolding distrib_estimate_pi_def task_world_def
  by (rule estimate_pi_rng_cong(1)) simp

lemma task_world_clock_cong:
  "fst (distrib_estimate_pi n (task_world (w\<lparr>clock := c\<rparr>) i))
     = fst (distrib_estimate_pi n (task_world w i))"
  unfolding distrib_estimate_pi_def task_world_def
  by (rule estimate_pi_rng_cong(1)) simp

lemma remote_trials_form:
  "remote_trials k n w =
     ([length (objects w)..<length (objects w) + k],
      w\<lparr>objects := objects w @ map (\<lambda>i. fst (distrib_estimate_pi n (task_world w i))) [0..<k]\<rparr>)"
proof (induction k arbitrary: w)
  case 0
  show ?case by simp
next
  case (Suc k)
  let ?out = "\<lambda>i. fst (distrib_estimate_pi n (task_world w i))"
  let ?w1 = "w\<lparr>objects := objects w @ [?out 0]\<rparr>"
  have shift: "fst (distrib_estimate_pi n (task_world ?w1 i)) = ?out (Suc i)" for i
    using task_world_objects_cong [where n = n and w = w and store = "objects w @ [?out 0]" and i = i]
    by (simp add: task_world_def)
  have refs: "length (objects w) # [Suc (length (objects w))..<Suc (length (objects w) + k)]
      = [length (objects w)..<length (objects w) + Suc k]"
    by (simp add: upt_conv_Cons del: upt_Suc)
  have outs: "?out 0 # map (\<lambda>i. ?out (Suc i)) [0..<k] = map ?out [0..<Suc k]"
    by (simp add: upt_conv_Cons map_Suc_upt [symmetric] del: upt_Suc)
  have "remote_trials (Suc k) n w =
      (length (objects w) # [Suc (length (objects w))..<Suc (length (objects w) + k)],
       w\<lparr>objects := objects w @ (?out 0 # map (\<lambda>i. ?out (Suc i)) [0..<k])\<rparr>)"
    by (simp add: remote_invocation Suc.IH [of ?w1] shift del: upt_Suc)
  then show ?case
    unfolding refs outs .
qed

lemma ray_get_list_new:
  "ray_get_list [length store..<length store + length outs] (store @ outs @ ext) = first_error outs"
proof (induction outs arbitrary: store)
  case Nil
  show ?case by simp
next
  case (Cons out outs)
  have refs: "[length store..<length store + length (out # outs)]
      = length store # [length (store @ [out])..<length (store @ [out]) + length outs]"
    by (simp add: upt_conv_Cons del: upt_Suc)
  have g: "ray_get (length store) (store @ (out # outs) @ ext) = out"
    by (simp add: ray_get_def)
  have t: "ray_get_list [length (store @ [out])..<length (store @ [out]) + length outs]
      (store @ (out # outs) @ ext) = first_error outs"
    using Cons.IH [of "store @ [out]"] by simp
  show ?case
    unfolding refs using g t by (cases out) (simp_all del: upt_Suc)
qed

lemma remote_trials_get:
  "ray_get_list (fst (remote_trials k n w)) (objects (snd (remote_trials k n w)))
     = first_error (map (\<lambda>i. fst (distrib_estimate_pi n (task_world w i))) [0..<k])"
  using ray_get_list_new [of "objects w" "map (\<lambda>i. fst (distrib_estimate_pi n (task_world w i))) [0..<k]" "[]"]
  by (simp add: remote_trials_form)

lemma first_error_values: "first_error (map Inr vs) = Inr vs"
  by (induction vs) simp_all

lemma first_error_length: "first_error outs = Inr vs \<Longrightarrow> length vs = length outs"
proof (induction outs arbitrary: vs)
  case Nil
  then show ?case by simp
next
  case (Cons out outs)
  then show ?case by (cases out) (auto split: sum.splits)
qed

lemma first_error_all_values:
  "(\<forall>out \<in> set outs. \<exists>v. out = Inr v) \<Longrightarrow> \<exists>vs. first_error outs = Inr vs"
proof (induction outs)
  case Nil
  show ?case by simp
next
  case (Cons out outs)
  then obtain v vs where "out = Inr v" "first_error outs = Inr vs" by auto
  then show ?case by simp
qed

section \<open>Properties of an epoch\<close>

lemma trial_estimates_clock_cong:
  "trial_estimates n t d (w\<lparr>clock := c\<rparr>) = trial_estimates n t d w"
proof (cases d)
  case True
  then show ?thesis by (simp add: trial_estimates_def task_world_clock_cong)
next
  case False
  have "fst (serial_trials (nat t) n (w\<lparr>clock := c\<rparr>)) = fst (serial_trials (nat t) n w)"
    by (rule serial_trials_rng_cong) simp
  with False show ?thesis by (simp add: trial_estimates_def)
qed

lemma run_epoch_form:
  "fst (run_epoch n t d w) =
     (case trial_estimates n t d w of
        Inl e \<Rightarrow> Inl e
      | Inr pis \<Rightarrow> epoch_of n (clock w (Suc 0) - clock w 0) pis)"
proof -
  let ?w1 = "w\<lparr>clock := (\<lambda>i. clock w (Suc i))\<rparr>"
  have est: "trial_estimates n t d ?w1 = trial_estimates n t d w"
    by (rule trial_estimates_clock_cong)
  show ?thesis
  proof (cases d)
    case True
    have c: "clock (snd (remote_trials (nat t) n ?w1)) = clock ?w1"
      by (simp add: remote_trials_form)
    have r: "ray_get_list (fst (remote_trials (nat t) n ?w1)) (objects (snd (remote_trials (nat t) n ?w1)))
        = trial_estimates n t d w"
      using est True by (simp add: remote_trials_get trial_estimates_def)
    show ?thesis
      using True c r
      by (cases "trial_estimates n t d w")
         (simp_all add: run_epoch_def time_time_def epoch_of_def Let_def split_beta split: sum.splits)
  next
    case False
    have c: "clock (snd (serial_trials (nat t) n ?w1)) = clock ?w1"
      by (rule serial_trials_clock)
    have r: "fst (serial_trials (nat t) n ?w1) = trial_estimates n t d w"
      using est False by (simp add: trial_estimates_def)
    obtain res w2 where s: "serial_trials (nat t) n ?w1 = (res, w2)"
      by (cases "serial_trials (nat t) n ?w1")
    show ?thesis
      using False c r s
      by (cases res)
         (simp_all add: run_epoch_def time_time_def epoch_of_def Let_def split: sum.splits)
  qed
qed

lemma epoch_of_stats:
  "map_sum id epoch_stats (epoch_of n d1 pis) = map_sum id epoch_stats (epoch_of n d2 pis)"
  by (simp add: epoch_of_def epoch_stats_def split: sum.splits)

lemma remote_then_get:
  "ray_get (fst (distrib_estimate_pi_remote n w)) (objects (snd (distrib_estimate_pi_remote n w)))
     = fst (distrib_estimate_pi n (task_world w 0))"
  by (simp add: remote_invocation ray_get_def)

lemma trial_estimates_ok:
  assumes "1 \<le> n"
  shows "\<exists>pis. trial_estimates n t d w = Inr pis \<and> length pis = nat t"
proof (cases d)
  case True
  let ?outs = "map (\<lambda>i. fst (distrib_estimate_pi n (task_world w i))) [0..<nat t]"
  have "\<forall>out \<in> set ?outs. \<exists>v. out = Inr v"
    using estimate_pi_positive [OF assms] by (auto simp add: distrib_estimate_pi_def)
  then obtain pis where p: "first_error ?outs = Inr pis"
    using first_error_all_values by blast
  then have "length pis = nat t"
    using first_error_length [OF p] by simp
  with p True show ?thesis by (simp add: trial_estimates_def)
next
  case False
  obtain pis where p: "fst (serial_trials (nat t) n w) = Inr pis"
    using serial_trials_ok [OF assms] by blast
  then have "length pis = nat t" by (rule serial_trials_length)
  with p False show ?thesis by (simp add: trial_estimates_def)
qed

lemma trial_estimates_fail:
  assumes "n \<le> 0" and "0 < t"
  shows "trial_estimates n t d w = Inl (if n < 0 then ValueError else ZeroDivisionError)"
proof -
  obtain k where k: "nat t = Suc k"
    using assms(2) by (cases "nat t") simp_all
  show ?thesis
  proof (cases d)
    case True
    have "[0..<Suc k] = 0 # [Suc 0..<Suc k]"
      by (simp add: upt_conv_Cons del: upt_Suc)
    then show ?thesis
      using True k estimate_pi_nonpositive [OF assms(1), of "task_world w 0"]
      by (simp add: trial_estimates_def distrib_estimate_pi_def del: upt_Suc)
  next
    case False
    then show ?thesis
      using k serial_trials_fail [OF assms(1), of k w] by (simp add: trial_estimates_def)
  qed
qed

lemma np_pi_pos: "0 < np_pi"
  by (simp add: np_pi_def)

lemma epoch_of_returns:
  "(\<exists>r. epoch_of n d pis = Inr r) \<longleftrightarrow> 2 \<le> length pis"
  by (auto simp add: epoch_of_def mean_def stdev_def variance_def Let_def split: sum.splits)

lemma epoch_of_short: "length pis < 2 \<Longrightarrow> epoch_of n d pis = Inl StatisticsError"
  by (auto simp add: epoch_of_def mean_def stdev_def variance_def Let_def split: sum.splits)

lemma run_epoch_first: "fst (run_epoch n t d w) = Inr r \<Longrightarrow> fst r = n"
  by (auto simp add: run_epoch_form epoch_of_def split: sum.splits)

lemma run_epoch_ok:
  assumes "1 \<le> n" and "2 \<le> t"
  shows "\<exists>r w'. run_epoch n t d w = (Inr r, w')"
proof -
  obtain pis where "trial_estimates n t d w = Inr pis" "length pis = nat t"
    using trial_estimates_ok [OF assms(1)] by blast
  moreover have "2 \<le> nat t" using assms(2) by simp
  ultimately obtain r where "fst (run_epoch n t d w) = Inr r"
    using epoch_of_returns [of n "clock w (Suc 0) - clock w 0" pis]
    by (auto simp add: run_epoch_form)
  then have "run_epoch n t d w = (Inr r, snd (run_epoch n t d w))"
    by (simp add: prod_eq_iff)
  then show ?thesis by blast
qed

text \<open>On the alternating generator two samples give one point in the circle of two.\<close>

lemma estimate_pi_alternating:
  assumes "rng w = alternating"
  shows "fst (estimate_pi 2 w) = Inr 2" and "rng (snd (estimate_pi 2 w)) = alternating"
proof -
  have two: "[0..<nat 2] = [0, 1]"
    by (simp add: numeral_2_eq_2)
  have shift: "(\<lambda>i. alternating (i + nat 2)) = alternating"
    by (rule ext) (simp add: alternating_def)
  have xs: "map (\<lambda>i. - 1 + (1 - (- 1)) * alternating i) [0, 1] = [0, 1]"
    by (simp add: alternating_def)
  have u: "uniform (- 1) 1 2 v = (Inr [0, 1], v\<lparr>rng := alternating\<rparr>)"
    if "rng v = alternating" for v
    unfolding uniform_def two that shift using xs by simp
  show "fst (estimate_pi 2 w) = Inr 2" and "rng (snd (estimate_pi 2 w)) = alternating"
    using assms by (simp_all add: estimate_pi_def u mask_select_def)
qed

lemma serial_trials_alternating:
  "rng w = alternating \<Longrightarrow> fst (serial_trials k 2 w) = Inr (replicate k 2)"
proof (induction k arbitrary: w)
  case 0
  show ?case by simp
next
  case (Suc k)
  obtain w1 where e: "estimate_pi 2 w = (Inr 2, w1)" and g: "rng w1 = alternating"
    using estimate_pi_alternating [OF Suc.prems] by (cases "estimate_pi 2 w") simp
  show ?case
    using e Suc.IH [OF g] by (cases "serial_trials k 2 w1") simp
qed

section \<open>Properties of the class Sim\<close>

lemma div_mult_le_pos: "0 < (b::int) \<Longrightarrow> (a div b) * b \<le> a"
  by (simp add: minus_mod_eq_div_mult [symmetric])

lemma py_range_up:
  assumes "0 < step" and "py_range start stop step = Inr ns"
  shows "sorted_wrt (<) ns" and "\<forall>n \<in> set ns. start \<le> n \<and> n < stop"
proof -
  let ?len = "nat ((stop - start + step - 1) div step)"
  have ns: "ns = map (\<lambda>i. start + int i * step) [0..<?len]"
    using assms by (simp add: py_range_def)
  show "sorted_wrt (<) ns"
    unfolding ns using assms(1) by (simp add: sorted_wrt_map sorted_wrt_iff_nth_less)
  show "\<forall>n \<in> set ns. start \<le> n \<and> n < stop"
  proof
    fix n assume "n \<in> set ns"
    then obtain i where i: "i < ?len" and n: "n = start + int i * step"
      unfolding ns by auto
    have "int i < (stop - start + step - 1) div step" using i by linarith
    then have "int i + 1 \<le> (stop - start + step - 1) div step" by simp
    then have "(int i + 1) * step \<le> ((stop - start + step - 1) div step) * step"
      using assms(1) by (simp add: mult_right_mono)
    also have "\<dots> \<le> stop - start + step - 1"
      using assms(1) by (rule div_mult_le_pos)
    finally have "int i * step < stop - start" by (simp add: algebra_simps)
    moreover have "0 \<le> int i * step" using assms(1) by simp
    ultimately show "start \<le> n \<and> n < stop" using n by simp
  qed
qed

lemma py_range_down:
  assumes "step < 0" and "py_range start stop step = Inr ns"
  shows "sorted_wrt (>) ns" and "\<forall>n \<in> set ns. stop < n \<and> n \<le> start"
proof -
  let ?len = "nat ((start - stop - step - 1) div (- step))"
  have ns: "ns = map (\<lambda>i. start + int i * step) [0..<?len]"
    using assms by (simp add: py_range_def)
  show "sorted_wrt (>) ns"
    unfolding ns using assms(1) by (simp add: sorted_wrt_map sorted_wrt_iff_nth_less)
  show "\<forall>n \<in> set ns. stop < n \<and> n \<le> start"
  proof
    fix n assume "n \<in> set ns"
    then obtain i where i: "i < ?len" and n: "n = start + int i * step"
      unfolding ns by auto
    have "int i < (start - stop - step - 1) div (- step)" using i by linarith
    then have "int i + 1 \<le> (start - stop - step - 1) div (- step)" by simp
    then have "(int i + 1) * (- step) \<le> ((start - stop - step - 1) div (- step)) * (- step)"
      using assms(1) by (simp add: mult_right_mono)
    also have "\<dots> \<le> start - stop - step - 1"
      using assms(1) by (intro div_mult_le_pos) simp
    finally have "int i * (- step) < start - stop" by (simp add: algebra_simps)
    moreover have "0 \<le> int i * (- step)" using assms(1) by (simp add: mult_nonneg_nonpos)
    ultimately show "stop < n \<and> n \<le> start" using n by simp
  qed
qed

text \<open>
  The ranges of the notebook: \<^verbatim>\<open>range(2, 11, 3)\<close> is 2, 5, 8; \<^verbatim>\<open>range(2, 0, -1)\<close> is 2, 1;
  a zero step raises; the default \<^verbatim>\<open>Sim\<close> runs 25 epochs, from 2 to 960002 samples.
\<close>

lemma py_range_examples:
  "py_range 2 11 3 = Inr [2, 5, 8]"
  "py_range 2 0 (- 1) = Inr [2, 1]"
  "py_range 2 2 1 = Inr []"
  "py_range 2 7 0 = Inl ValueError"
  by (simp_all add: py_range_def numeral_3_eq_3 numeral_2_eq_2)

lemma py_range_default:
  "py_range 2 NUM_SAMPLES STEP_SIZE = Inr (map (\<lambda>i. 2 + int i * 40000) [0..<25])"
  by (simp add: py_range_def NUM_SAMPLES_def STEP_SIZE_def)

lemma run_epochs_steps:
  "run_epochs ns nt d w = (Inr rs, w') \<Longrightarrow>
     \<exists>ws. length ws = Suc (length ns) \<and> ws ! 0 = w \<and> ws ! length ns = w'
        \<and> length rs = length ns
        \<and> (\<forall>i<length ns. run_epoch (ns ! i) nt d (ws ! i) = (Inr (rs ! i), ws ! Suc i))"
proof (induction ns arbitrary: w rs)
  case Nil
  then show ?case by (auto intro: exI [of _ "[w]"])
next
  case (Cons n ns)
  from Cons.prems obtain r w1 rs1 where
    e: "run_epoch n nt d w = (Inr r, w1)" and
    t: "run_epochs ns nt d w1 = (Inr rs1, w')" and
    rs: "rs = r # rs1"
    by (auto split: prod.splits sum.splits)
  from Cons.IH [OF t] obtain ws where
    ws: "length ws = Suc (length ns)" "ws ! 0 = w1" "ws ! length ns = w'" "length rs1 = length ns"
      "\<forall>i<length ns. run_epoch (ns ! i) nt d (ws ! i) = (Inr (rs1 ! i), ws ! Suc i)"
    by blast
  have "\<forall>i<length (n # ns). run_epoch ((n # ns) ! i) nt d ((w # ws) ! i) = (Inr (rs ! i), (w # ws) ! Suc i)"
  proof (intro allI impI)
    fix i assume "i < length (n # ns)"
    then show "run_epoch ((n # ns) ! i) nt d ((w # ws) ! i) = (Inr (rs ! i), (w # ws) ! Suc i)"
      using e ws rs by (cases i) simp_all
  qed
  then show ?case
    using ws rs by (intro exI [of _ "w # ws"]) simp
qed

lemma run_epochs_column:
  "run_epochs ns nt d w = (Inr rs, w') \<Longrightarrow> map fst rs = ns"
proof (induction ns arbitrary: w rs)
  case Nil
  then show ?case by simp
next
  case (Cons n ns)
  from Cons.prems obtain r w1 rs1 where
    e: "run_epoch n nt d w = (Inr r, w1)" and
    t: "run_epochs ns nt d w1 = (Inr rs1, w')" and
    rs: "rs = r # rs1"
    by (auto split: prod.splits sum.splits)
  have "fst r = n" using run_epoch_first [of n nt d w r] e by simp
  then show ?case using Cons.IH [OF t] rs by simp
qed

lemma run_epochs_ok:
  assumes "\<forall>n \<in> set ns. 1 \<le> n" and "2 \<le> nt"
  shows "\<exists>rs w'. run_epochs ns nt d w = (Inr rs, w')"
  using assms(1)
proof (induction ns arbitrary: w)
  case Nil
  show ?case by simp
next
  case (Cons n ns)
  obtain r w1 where e: "run_epoch n nt d w = (Inr r, w1)"
    using run_epoch_ok [of n nt d w] Cons.prems assms(2) by auto
  obtain rs w2 where "run_epochs ns nt d w1 = (Inr rs, w2)"
    using Cons.IH [of w1] Cons.prems by auto
  then show ?case using e by simp
qed

section \<open>Properties of the object store and of the actor\<close>

lemma put_then_get: "ray_get (fst (ray_put v store)) (snd (ray_put v store) @ ext) = Inr v"
  by (simp add: ray_put_def new_object_def ray_get_def nth_append)

lemma put_each_store: "snd (put_each vs store) = store @ map Inr vs"
  by (induction vs arbitrary: store) (simp_all add: ray_put_def new_object_def split_beta)

lemma put_each_get_list:
  "ray_get_list (fst (put_each vs store)) (snd (put_each vs store) @ ext) = Inr vs"
proof (induction vs arbitrary: store)
  case Nil
  show ?case by simp
next
  case (Cons v vs)
  let ?store1 = "store @ [Inr v]"
  have p: "put_each (v # vs) store = (length store # fst (put_each vs ?store1), snd (put_each vs ?store1))"
    by (simp add: ray_put_def new_object_def split_beta)
  have "ray_get (length store) (snd (put_each vs ?store1) @ ext) = Inr v"
    by (simp add: put_each_store ray_get_def nth_append)
  then show ?case
    unfolding p using Cons.IH [of ?store1] by simp
qed

lemma remote_then_resolve:
  "ray_get (fst (remote body args store)) (snd (remote body args store))
     = (case resolve_args args store of Inl e \<Rightarrow> Inl e | Inr vs \<Rightarrow> body vs)"
  by (simp add: remote_def new_object_def ray_get_def)

lemma increments_from:
  "increments k actor =
     (map (\<lambda>i. counter_value actor + int (Suc i)) [0..<k],
      actor\<lparr>counter_value := counter_value actor + int k\<rparr>)"
proof (induction k arbitrary: actor)
  case 0
  show ?case by simp
next
  case (Suc k)
  have "map (\<lambda>i. counter_value actor + 1 + int (Suc i)) [0..<k]
      = map (\<lambda>i. counter_value actor + int (Suc i)) [Suc 0..<Suc k]"
    by (simp add: map_Suc_upt [symmetric] del: upt_Suc)
  then show ?case
    using Suc.IH [of "actor\<lparr>counter_value := counter_value actor + 1\<rparr>"]
    by (simp add: increment_def Let_def upt_rec [of 0] del: upt_Suc)
qed

section \<open>Main results\<close>



text \<open>
  C2. The serial and the distributed mode compute the same statistics. The body of
  \<^verbatim>\<open>distrib_estimate_pi\<close> returns exactly what \<^verbatim>\<open>estimate_pi\<close> returns, and the
  future of its remote invocation resolves to what the body returned in the worker.
  Given the same per-trial estimates, that is, when the serial trials give the list
  \<open>pis\<close> and the \<open>i\<close>-th task, run in its worker, gives \<open>pis[i]\<close>, the distributed
  \<^verbatim>\<open>run_epoch\<close> gets the same list from \<^verbatim>\<open>ray.get(refs)\<close> and ends as the serial one
  does, with the same \<open>num_samples\<close>, \<open>approx_pi\<close>, \<open>stdev\<close> and \<open>error\<close> components
  (or the same \<^verbatim>\<open>StatisticsError\<close>); the states the two runs start in may differ in
  everything else, so only the measured duration may differ.
\<close>

theorem distrib_same_statistics:
  assumes "fst (serial_trials (nat t) n w) = Inr pis"
    and "\<forall>i<nat t. fst (distrib_estimate_pi n (task_world v i)) = Inr (pis ! i)"
  shows "distrib_estimate_pi n u = estimate_pi n u
       \<and> ray_get (fst (distrib_estimate_pi_remote n u)) (objects (snd (distrib_estimate_pi_remote n u)))
           = fst (estimate_pi n (task_world u 0))
       \<and> ray_get_list (fst (remote_trials (nat t) n v)) (objects (snd (remote_trials (nat t) n v)))
           = Inr pis
       \<and> map_sum id epoch_stats (fst (run_epoch n t True v))
           = map_sum id epoch_stats (fst (run_epoch n t False w))"
proof -
  have len: "length pis = nat t"
    using assms(1) by (rule serial_trials_length)
  have "map (\<lambda>i. fst (distrib_estimate_pi n (task_world v i))) [0..<nat t] = map Inr pis"
    using assms(2) len by (intro nth_equalityI) simp_all
  then have outs: "first_error (map (\<lambda>i. fst (distrib_estimate_pi n (task_world v i))) [0..<nat t]) = Inr pis"
    by (simp add: first_error_values)
  have est: "trial_estimates n t True v = trial_estimates n t False w"
    using outs assms(1) by (simp add: trial_estimates_def)
  have "map_sum id epoch_stats (fst (run_epoch n t True v))
      = map_sum id epoch_stats (fst (run_epoch n t False w))"
    unfolding run_epoch_form est
    by (cases "trial_estimates n t False w") (simp_all add: epoch_of_stats)
  then show ?thesis
    using outs remote_then_get [of n u]
    by (simp add: distrib_estimate_pi_def remote_trials_get)
qed

theorem distrib_same_statistics_witness:
  "fst (serial_trials (nat 2) 2 world0) = Inr [2, 2]
   \<and> ray_get_list (fst (remote_trials (nat 2) 2 world0)) (objects (snd (remote_trials (nat 2) 2 world0)))
       = Inr [2, 2]
   \<and> map_sum id epoch_stats (fst (run_epoch 2 2 True world0))
       = map_sum id epoch_stats (fst (run_epoch 2 2 False world0))"
proof -
  have g: "rng world0 = alternating"
    by (simp add: world0_def)
  have h1: "fst (serial_trials (nat 2) 2 world0) = Inr [2, 2]"
    using serial_trials_alternating [OF g, of 2] by (simp add: numeral_2_eq_2)
  have "fst (distrib_estimate_pi 2 (task_world world0 i)) = Inr 2" for i
    unfolding distrib_estimate_pi_def
    by (rule estimate_pi_alternating(1)) (simp add: task_world_def world0_def)
  then have h2: "\<forall>i<nat 2. fst (distrib_estimate_pi 2 (task_world world0 i)) = Inr ([2, 2] ! i)"
    by (simp add: nth_Cons split: nat.split)
  show ?thesis
    using distrib_same_statistics [OF h1 h2] h1 by simp
qed

text \<open>
  C3, as stated: the rows of the table are in increasing order of \<open>n\<close>. With a negative
  step the range counts down and so do the rows: \<open>Sim(num_samples=0, num_trials=2,
  step_size=-1).run()\<close> returns with the column \<open>n\<close> holding 2, then 1.
\<close>

theorem Sim_run_order_counterexample:
  "map_sum id column_n (fst (run (Sim_init False 0 2 (- 1)) world0)) = Inr [2, 1]"
proof -
  have ns: "py_range 2 0 (- 1) = Inr [2, 1]"
    by (simp add: py_range_def numeral_2_eq_2)
  obtain rs w' where e: "run_epochs [2, 1] 2 False world0 = (Inr rs, w')"
    using run_epochs_ok [of "[2, 1]" 2 False world0] by auto
  have "map fst rs = [2, 1]"
    using run_epochs_column [OF e] .
  then show ?thesis
    using ns e by (simp add: run_def Sim_init_def column_n_def)
qed

text \<open>
  C3, amended. Whenever \<^verbatim>\<open>Sim.run\<close> returns, it has evaluated
  \<^verbatim>\<open>run_epoch(n, num_trials, distrib)\<close> for every \<open>n\<close> of
  \<^verbatim>\<open>range(2, num_samples, step_size)\<close>, one after the other in the order of the range,
  each call starting in the state the one before left; \<open>df\<close> holds the table whose
  columns are \<open>n\<close>, \<open>duration\<close>, \<open>approx_pi\<close>, \<open>stdev\<close>, \<open>error\<close> and whose rows are the
  resulting 5-tuples, one row per value of \<open>n\<close> in the order of the range, which is
  increasing in \<open>n\<close> for a positive \<open>step_size\<close> and decreasing for a negative one; the
  object returned is the \<open>Sim\<close> itself, changed in \<open>df\<close> only. It does return when
  \<open>step_size > 0\<close> and \<open>num_trials \<ge> 2\<close>.
\<close>

theorem Sim_run_table:
  "(run self w = (Inr self', w') \<longrightarrow>
      (\<exists>ns results ws.
         py_range 2 (num_samples self) (step_size self) = Inr ns
         \<and> length results = length ns \<and> length ws = Suc (length ns)
         \<and> ws ! 0 = w \<and> ws ! length ns = w'
         \<and> (\<forall>i<length ns.
               run_epoch (ns ! i) (num_trials self) (distrib self) (ws ! i)
                 = (Inr (results ! i), ws ! Suc i))
         \<and> map fst results = ns
         \<and> (0 < step_size self \<longrightarrow> sorted_wrt (<) ns)
         \<and> (step_size self < 0 \<longrightarrow> sorted_wrt (>) ns)
         \<and> self' = self\<lparr>df := Some \<lparr>columns = DF_COL_NAMES, rows = results\<rparr>\<rparr>))
   \<and> (0 < step_size self \<and> 2 \<le> num_trials self \<longrightarrow> (\<exists>s v. run self w = (Inr s, v)))"
proof (intro conjI impI)
  assume r: "run self w = (Inr self', w')"
  then obtain ns where ns: "py_range 2 (num_samples self) (step_size self) = Inr ns"
    by (auto simp add: run_def split: sum.splits)
  with r obtain results where
    e: "run_epochs ns (num_trials self) (distrib self) w = (Inr results, w')" and
    s: "self' = self\<lparr>df := Some \<lparr>columns = DF_COL_NAMES, rows = results\<rparr>\<rparr>"
    by (auto simp add: run_def split: sum.splits prod.splits)
  obtain ws where ws: "length ws = Suc (length ns)" "ws ! 0 = w" "ws ! length ns = w'"
      "length results = length ns"
      "\<forall>i<length ns. run_epoch (ns ! i) (num_trials self) (distrib self) (ws ! i)
          = (Inr (results ! i), ws ! Suc i)"
    using run_epochs_steps [OF e] by blast
  have c: "map fst results = ns" using run_epochs_column [OF e] .
  have up: "0 < step_size self \<longrightarrow> sorted_wrt (<) ns"
    using py_range_up(1) [OF _ ns] by blast
  have down: "step_size self < 0 \<longrightarrow> sorted_wrt (>) ns"
    using py_range_down(1) [OF _ ns] by blast
  show "\<exists>ns results ws.
         py_range 2 (num_samples self) (step_size self) = Inr ns
         \<and> length results = length ns \<and> length ws = Suc (length ns)
         \<and> ws ! 0 = w \<and> ws ! length ns = w'
         \<and> (\<forall>i<length ns.
               run_epoch (ns ! i) (num_trials self) (distrib self) (ws ! i)
                 = (Inr (results ! i), ws ! Suc i))
         \<and> map fst results = ns
         \<and> (0 < step_size self \<longrightarrow> sorted_wrt (<) ns)
         \<and> (step_size self < 0 \<longrightarrow> sorted_wrt (>) ns)
         \<and> self' = self\<lparr>df := Some \<lparr>columns = DF_COL_NAMES, rows = results\<rparr>\<rparr>"
    using ns ws c up down s by blast
next
  assume a: "0 < step_size self \<and> 2 \<le> num_trials self"
  then obtain ns where ns: "py_range 2 (num_samples self) (step_size self) = Inr ns"
    by (auto simp add: py_range_def)
  have "\<forall>n \<in> set ns. 1 \<le> n"
    using py_range_up(2) [OF _ ns] a by fastforce
  then obtain rs v where "run_epochs ns (num_trials self) (distrib self) w = (Inr rs, v)"
    using run_epochs_ok [of ns "num_trials self" "distrib self" w] a by blast
  then show "\<exists>s v. run self w = (Inr s, v)"
    using ns by (simp add: run_def)
qed

theorem Sim_run_table_witness:
  "\<exists>s v. run (Sim_init False 7 2 3) world0 = (Inr s, v) \<and> column_n s = [2, 5]"
proof -
  let ?self = "Sim_init False 7 2 3"
  have pre: "0 < step_size ?self \<and> 2 \<le> num_trials ?self"
    by (simp add: Sim_init_def)
  have ns: "py_range 2 (num_samples ?self) (step_size ?self) = Inr [2, 5]"
    by (simp add: py_range_def Sim_init_def numeral_2_eq_2)
  obtain s v where r: "run ?self world0 = (Inr s, v)"
    using Sim_run_table [of ?self world0] pre by blast
  obtain ns results where "py_range 2 (num_samples ?self) (step_size ?self) = Inr ns"
    and "map fst results = ns"
    and "s = ?self\<lparr>df := Some \<lparr>columns = DF_COL_NAMES, rows = results\<rparr>\<rparr>"
    using Sim_run_table [of ?self world0 s v] r by blast
  then have "column_n s = [2, 5]"
    using ns by (simp add: column_n_def)
  then show ?thesis using r by blast
qed

text \<open>
  C4. Placing a value in the store and retrieving it through its handle is the identity:
  \<^verbatim>\<open>ray.get(ray.put(v))\<close> returns \<open>v\<close> for every value \<open>v\<close>, and getting the handles of
  a list of values put one after the other returns the values in order; retrieving the
  handle of \<open>[23, 42, 93]\<close> yields \<open>[23, 42, 93]\<close>, and
  \<^verbatim>\<open>ray.get([ray.put(i) for i in range(3)])\<close> yields \<open>[0, 1, 2]\<close>.
\<close>

theorem put_get_round_trip:
  "ray_get (fst (ray_put v store)) (snd (ray_put v store)) = Inr v
   \<and> ray_get_list (fst (put_each vs store)) (snd (put_each vs store)) = Inr vs
   \<and> ray_get (fst (ray_put num_list store1)) (snd (ray_put num_list store1)) = Inr (PyList [23, 42, 93])
   \<and> ray_get_list (fst (put_each (map PyInt [0, 1, 2]) store1))
        (snd (put_each (map PyInt [0, 1, 2]) store1)) = Inr [PyInt 0, PyInt 1, PyInt 2]"
proof -
  have a: "ray_get (fst (ray_put v store)) (snd (ray_put v store)) = Inr v" for v :: 'b and store
    using put_then_get [of v store "[]"] by simp
  have b: "ray_get_list (fst (put_each vs store)) (snd (put_each vs store)) = Inr vs"
    for vs :: "'c list" and store
    using put_each_get_list [of vs store "[]"] by simp
  show ?thesis
    using a [of v store] a [of num_list store1] b [of vs store] b [of "map PyInt [0, 1, 2]" store1]
    by (simp add: num_list_def)
qed

text \<open>
  C5. The future of a remote invocation resolves to the plain body applied to the
  resolved arguments: \<^verbatim>\<open>ray.get(my_function.remote())\<close> is 42, and the remote
  summation applied to the handle of \<open>[23, 42, 93]\<close> resolves to
  \<open>sum([23, 42, 93]) = 158\<close>, the handle being resolved to the list before the body
  runs.
\<close>

theorem remote_function_result:
  "ray_get (fst (remote body args store)) (snd (remote body args store))
     = (case resolve_args args store of Inl e \<Rightarrow> Inl e | Inr vs \<Rightarrow> body vs)
   \<and> ray_get (fst (remote my_function [] store1)) (snd (remote my_function [] store1)) = Inr (PyInt 42)
   \<and> (case ray_put num_list store2 of
        (obj_ref, store3) \<Rightarrow>
          (case remote my_function_sum [Ref obj_ref] store3 of
             (calc_ref, store4) \<Rightarrow>
               resolve_args [Ref obj_ref] store3 = Inr [PyList [23, 42, 93]]
               \<and> ray_get calc_ref store4 = Inr (PyInt 158)
               \<and> ray_get calc_ref store4 = my_function_sum [PyList [23, 42, 93]]))"
proof -
  have g: "ray_get (length store2) (store2 @ [Inr num_list]) = Inr num_list"
    by (simp add: ray_get_def)
  have "resolve_args [Ref (length store2)] (store2 @ [Inr num_list]) = Inr [PyList [23, 42, 93]]"
    using g by (simp add: num_list_def)
  then show ?thesis
    by (simp add: remote_then_resolve remote_def ray_put_def new_object_def ray_get_def py_sum_def
        num_list_def)
qed

text \<open>
  C7. For the actor class \<^verbatim>\<open>Counter\<close>, starting from \<open>value = 0\<close>, the \<open>i\<close>-th call of
  \<^verbatim>\<open>increment\<close> in a sequence of calls returns \<open>i\<close>: \<open>k\<close> calls return \<open>1, ..., k\<close>
  and the next one returns \<open>k + 1\<close>; the field equals the number of calls made so far;
  the returned values are strictly increasing.
\<close>

theorem Counter_increment_returns:
  "increments k Counter_init = (map (\<lambda>i. int (Suc i)) [0..<k], \<lparr>counter_value = int k\<rparr>)
   \<and> fst (increment (snd (increments k Counter_init))) = int (Suc k)
   \<and> counter_value (snd (increments k Counter_init)) = int k
   \<and> sorted_wrt (<) (fst (increments k Counter_init))"
  by (simp add: increments_from Counter_init_def increment_def Let_def sorted_wrt_map
      sorted_wrt_iff_nth_less del: upt_Suc)

text \<open>
  C9. \<^verbatim>\<open>estimate_pi(0)\<close> divides by zero, and \<^verbatim>\<open>estimate_pi\<close> returns a value
  exactly when \<open>num_samples \<ge> 1\<close>.
\<close>

theorem estimate_pi_defined:
  "fst (estimate_pi 0 w) = Inl ZeroDivisionError
   \<and> ((\<exists>v. fst (estimate_pi n w) = Inr v) \<longleftrightarrow> 1 \<le> n)"
proof -
  have raises: "\<exists>e. fst (estimate_pi n w) = Inl e" if "\<not> 1 \<le> n"
  proof (cases "n < 0")
    case True
    then show ?thesis using estimate_pi_negative by blast
  next
    case False
    with that have "n = 0" by simp
    then show ?thesis using estimate_pi_zero by blast
  qed
  have "(\<exists>v. fst (estimate_pi n w) = Inr v) \<longleftrightarrow> 1 \<le> n"
  proof
    assume "\<exists>v. fst (estimate_pi n w) = Inr v"
    then obtain v where v: "fst (estimate_pi n w) = Inr v" ..
    show "1 \<le> n"
    proof (rule ccontr)
      assume "\<not> 1 \<le> n"
      then obtain e where "fst (estimate_pi n w) = Inl e" using raises by blast
      with v show False by simp
    qed
  next
    assume "1 \<le> n"
    then show "\<exists>v. fst (estimate_pi n w) = Inr v" by (rule estimate_pi_positive)
  qed
  then show ?thesis by (simp add: estimate_pi_zero)
qed

text \<open>
  C10, as stated: \<^verbatim>\<open>run_epoch\<close> returns normally if and only if \<open>num_trials \<ge> 2\<close>.
  With two trials of zero samples it raises \<^verbatim>\<open>ZeroDivisionError\<close>, in either mode.
\<close>

theorem run_epoch_zero_samples_counterexample:
  "fst (run_epoch 0 2 False world0) = Inl ZeroDivisionError
   \<and> fst (run_epoch 0 2 True world0) = Inl ZeroDivisionError"
  by (simp add: run_epoch_form trial_estimates_fail)

text \<open>
  C10, amended. For \<open>num_samples \<ge> 1\<close>, \<^verbatim>\<open>run_epoch\<close> returns normally if and only if
  \<open>num_trials \<ge> 2\<close>: with fewer than two trials it raises \<^verbatim>\<open>StatisticsError\<close>, and with
  \<open>num_trials \<ge> 2\<close> it returns the 5-tuple \<open>(num_samples, duration, approx_pi, stdev,
  error)\<close>, where \<open>duration\<close> is the difference of the two clock readings, \<open>approx_pi\<close> and
  \<open>stdev\<close> are the mean and the standard deviation of the \<open>num_trials\<close> estimates, and
  \<open>error = 100 * |approx_pi - np.pi| / np.pi \<ge> 0\<close>.
\<close>

theorem run_epoch_returns:
  assumes "1 \<le> n"
  shows "((\<exists>r. fst (run_epoch n t d w) = Inr r) \<longleftrightarrow> 2 \<le> t)
       \<and> (t < 2 \<longrightarrow> fst (run_epoch n t d w) = Inl StatisticsError)
       \<and> (2 \<le> t \<longrightarrow>
            (\<exists>pis approx_pi sd.
               trial_estimates n t d w = Inr pis \<and> length pis = nat t
               \<and> mean pis = Inr approx_pi \<and> stdev pis = Inr sd
               \<and> fst (run_epoch n t d w)
                   = Inr (n, clock w 1 - clock w 0, approx_pi, sd, 100 * \<bar>approx_pi - np_pi\<bar> / np_pi)
               \<and> 0 \<le> 100 * \<bar>approx_pi - np_pi\<bar> / np_pi))"
proof -
  obtain pis where p: "trial_estimates n t d w = Inr pis" and l: "length pis = nat t"
    using trial_estimates_ok [OF assms] by blast
  have f: "fst (run_epoch n t d w) = epoch_of n (clock w (Suc 0) - clock w 0) pis"
    using p by (simp add: run_epoch_form)
  have a: "(\<exists>r. fst (run_epoch n t d w) = Inr r) \<longleftrightarrow> 2 \<le> t"
    using f l epoch_of_returns [of n "clock w (Suc 0) - clock w 0" pis] by auto
  have b: "t < 2 \<longrightarrow> fst (run_epoch n t d w) = Inl StatisticsError"
    using f l epoch_of_short [of pis n "clock w (Suc 0) - clock w 0"] by auto
  have c: "2 \<le> t \<longrightarrow>
            (\<exists>pis approx_pi sd.
               trial_estimates n t d w = Inr pis \<and> length pis = nat t
               \<and> mean pis = Inr approx_pi \<and> stdev pis = Inr sd
               \<and> fst (run_epoch n t d w)
                   = Inr (n, clock w 1 - clock w 0, approx_pi, sd, 100 * \<bar>approx_pi - np_pi\<bar> / np_pi)
               \<and> 0 \<le> 100 * \<bar>approx_pi - np_pi\<bar> / np_pi)"
  proof
    assume "2 \<le> t"
    then have l2: "2 \<le> length pis" using l by simp
    then have "pis \<noteq> []" by auto
    then obtain approx_pi where m: "mean pis = Inr approx_pi"
      by (simp add: mean_def)
    obtain sd where s: "stdev pis = Inr sd"
      using l2 by (auto simp add: stdev_def variance_def Let_def)
    have "fst (run_epoch n t d w)
        = Inr (n, clock w 1 - clock w 0, approx_pi, sd, 100 * \<bar>approx_pi - np_pi\<bar> / np_pi)"
      using f m s by (simp add: epoch_of_def)
    moreover have "0 \<le> 100 * \<bar>approx_pi - np_pi\<bar> / np_pi"
      using np_pi_pos by simp
    ultimately show "\<exists>pis approx_pi sd.
               trial_estimates n t d w = Inr pis \<and> length pis = nat t
               \<and> mean pis = Inr approx_pi \<and> stdev pis = Inr sd
               \<and> fst (run_epoch n t d w)
                   = Inr (n, clock w 1 - clock w 0, approx_pi, sd, 100 * \<bar>approx_pi - np_pi\<bar> / np_pi)
               \<and> 0 \<le> 100 * \<bar>approx_pi - np_pi\<bar> / np_pi"
      using p l m s by blast
  qed
  show ?thesis using a b c by blast
qed

theorem run_epoch_returns_witness:
  "(\<exists>r. fst (run_epoch 2 2 True world0) = Inr r)
   \<and> fst (run_epoch 2 1 True world0) = Inl StatisticsError
   \<and> (\<exists>pis approx_pi sd.
         trial_estimates 2 2 False world0 = Inr pis \<and> length pis = nat 2
         \<and> mean pis = Inr approx_pi \<and> stdev pis = Inr sd
         \<and> fst (run_epoch 2 2 False world0)
             = Inr (2, clock world0 1 - clock world0 0, approx_pi, sd, 100 * \<bar>approx_pi - np_pi\<bar> / np_pi)
         \<and> 0 \<le> 100 * \<bar>approx_pi - np_pi\<bar> / np_pi)"
proof -
  have h: "(1::int) \<le> 2" by simp
  show ?thesis
    using run_epoch_returns [OF h, of 2 True world0] run_epoch_returns [OF h, of 1 True world0]
      run_epoch_returns [OF h, of 2 False world0]
    by simp
qed

end
